theory Spec2Isabelle
  imports Main "HOL-Library.AList"
begin

section \<open>The dota2api client: data model\<close>

text \<open>
  The model follows \<^verbatim>\<open>src/dota2api/__init__.py\<close>. Python's unbounded integers are
  \<^typ>\<open>int\<close>. An exception is a value of \<open>error\<close>, and a function that may raise returns
  \<open>error + 'a\<close> with \<open>Inl\<close> for the raised exception. \<open>APIAuthenticationError\<close> keeps its
  optional constructor argument: \<^verbatim>\<open>__init__\<close> raises it with none, \<^verbatim>\<open>__check_http_err\<close>
  with the api key.
\<close>

datatype error =
    APIAuthenticationError "string option"
  | APITimeoutError
  | UnboundLocalError
  | IndexError
  | KeyError
  | TypeError

text \<open>Values of keyword arguments, and keyword dictionaries in insertion order.\<close>

datatype pyval = PNone | PInt int | PStr string

type_synonym kwargs = "(string \<times> pyval) list"

text \<open>
  The endpoints of \<^verbatim>\<open>urls\<close> that the aggregation uses. \<^verbatim>\<open>__build_url\<close> formats
  \<^verbatim>\<open>BASE_URL\<close>, the endpoint and the url-encoded query into one string; the model keeps
  the endpoint and the query dictionary apart, which is what the url determines.
\<close>

datatype api_call = GET_MATCH_HISTORY | GET_MATCH_DETAILS | GET_HEROES

record url =
  endpoint :: api_call
  query :: kwargs

record match_summary =
  match_id :: int

record history_page =
  matches :: "match_summary list"
  total_results :: int
  results_remaining :: int
  num_results :: int

record match_details =
  details_match_id :: int

record hero =
  id_hero :: int
  localized_name :: string

text \<open>
  The parsed body of a response: a dictionary shaped as a history page, as the details of
  one match, or as the hero listing; \<open>NonePayload\<close> is Python's \<^verbatim>\<open>None\<close>.
\<close>

datatype payload =
    HistoryPage history_page
  | MatchDetails match_details
  | HeroList "hero list"
  | NonePayload

record response =
  status_code :: int
  json :: payload

text \<open>
  The instance: the executor is a field, as in the source. It is a function of the url and
  of the state of the world \<open>'w\<close> (the upstream service and whatever the executor
  remembers), returning a response and the next state.
\<close>

record 'w client =
  api_key :: string
  language :: string
  executor :: "url \<Rightarrow> 'w \<Rightarrow> response \<times> 'w"
  logger :: bool
  format :: string

section \<open>Construction\<close>

text \<open>
  \<^verbatim>\<open>__init__\<close>: \<^verbatim>\<open>if api_key:\<close> tests truthiness, so \<^verbatim>\<open>None\<close> and the empty string both
  fall through to the environment. \<open>requests_get\<close> stands for \<^verbatim>\<open>requests.get\<close>.
\<close>

definition truthy :: "string option \<Rightarrow> bool" where
  "truthy s = (case s of None \<Rightarrow> False | Some v \<Rightarrow> v \<noteq> [])"

definition Initialise ::
  "(url \<Rightarrow> 'w \<Rightarrow> response \<times> 'w) \<Rightarrow> (string \<rightharpoonup> string) \<Rightarrow> string option \<Rightarrow>
   (url \<Rightarrow> 'w \<Rightarrow> response \<times> 'w) option \<Rightarrow> string option \<Rightarrow> bool \<Rightarrow> error + 'w client" where
  "Initialise requests_get environ api_key_arg executor_arg language_arg logging =
     (case (if truthy api_key_arg then Inr (the api_key_arg)
            else (case environ ''D2_API_KEY'' of
                    Some v \<Rightarrow> Inr v
                  | None \<Rightarrow> Inl (APIAuthenticationError None))) of
        Inl e \<Rightarrow> Inl e
      | Inr k \<Rightarrow>
          Inr \<lparr> api_key = k,
                language = (if \<not> truthy language_arg then ''en_us'' else the language_arg),
                executor = (case executor_arg of None \<Rightarrow> requests_get | Some ex \<Rightarrow> ex),
                logger = logging,
                format = ''json'' \<rparr>)"

section \<open>Steam ids\<close>

definition min64b :: int where
  "min64b = 76561197960265728"

definition convert_to_64_bit :: "int \<Rightarrow> int" where
  "convert_to_64_bit number = (if number < min64b then number + min64b else number)"

section \<open>Single requests\<close>

text \<open>\<^verbatim>\<open>kwargs[k] = v\<close> is \<^const>\<open>AList.update\<close>: it replaces in place or appends.\<close>

definition setdefault :: "string \<Rightarrow> pyval \<Rightarrow> kwargs \<Rightarrow> kwargs" where
  "setdefault k v kwargs = (if k \<notin> fst ` set kwargs then AList.update k v kwargs else kwargs)"

definition build_url :: "'w client \<Rightarrow> api_call \<Rightarrow> kwargs \<Rightarrow> url" where
  "build_url self call kwargs =
     \<lparr> endpoint = call,
       query = setdefault ''format'' (PStr (format self))
                 (setdefault ''language'' (PStr (language self))
                   (AList.update ''key'' (PStr (api_key self)) kwargs)) \<rparr>"

definition check_http_err :: "'w client \<Rightarrow> int \<Rightarrow> error + bool" where
  "check_http_err self code =
     (if code = 403 then Inl (APIAuthenticationError (Some (api_key self)))
      else if code = 503 then Inl APITimeoutError
      else Inr False)"

text \<open>
  Modelled from the spec: \<^verbatim>\<open>response.build\<close> of the module \<^verbatim>\<open>src/response.py\<close>, which is
  not among the sources. The spec says a fetch "returns parsed JSON" shaped as its result,
  so the model returns the parsed body of the response.
\<close>

definition response_build :: "response \<Rightarrow> url \<Rightarrow> payload" where
  "response_build req u = json req"

text \<open>
  The body shared by every fetch method after its url is built: call the executor, check
  the status, build the result. A method whose check returned a true value would fall off
  its end and return \<^verbatim>\<open>None\<close>.
\<close>

definition fetch :: "'w client \<Rightarrow> url \<Rightarrow> 'w \<Rightarrow> (error + payload) \<times> 'w" where
  "fetch self u w =
     (case executor self u w of
        (req, w') \<Rightarrow>
          (case check_http_err self (status_code req) of
             Inl e \<Rightarrow> (Inl e, w')
           | Inr b \<Rightarrow> if \<not> b then (Inr (response_build req u), w') else (Inr NonePayload, w')))"

definition get_match_history :: "'w client \<Rightarrow> pyval \<Rightarrow> kwargs \<Rightarrow> 'w \<Rightarrow> (error + payload) \<times> 'w" where
  "get_match_history self account_id kwargs =
     fetch self (build_url self GET_MATCH_HISTORY (setdefault ''account_id'' account_id kwargs))"

definition get_match_details :: "'w client \<Rightarrow> pyval \<Rightarrow> kwargs \<Rightarrow> 'w \<Rightarrow> (error + payload) \<times> 'w" where
  "get_match_details self match_id_arg kwargs =
     fetch self (build_url self GET_MATCH_DETAILS (setdefault ''match_id'' match_id_arg kwargs))"

definition get_heroes :: "'w client \<Rightarrow> 'w \<Rightarrow> (error + payload) \<times> 'w" where
  "get_heroes self = fetch self (build_url self GET_HEROES [])"

section \<open>The retry decorator\<close>

text \<open>
  Both wrappers are decorated with
  \<^verbatim>\<open>@retry(wait_random_min=5000, wait_random_max=60000, stop_max_attempt_number=5)\<close>
  of the \<^verbatim>\<open>retrying\<close> package. The decorator is given no \<^verbatim>\<open>retry_on_exception\<close>
  predicate, so the package's default applies, which retries after every exception. The
  package's call loop counts attempts from 1: an attempt that returns is the result; after
  an attempt that raised an exception the predicate rejects, or when the attempt number has
  reached \<^verbatim>\<open>stop_max_attempt_number\<close>, the exception of that attempt is raised again;
  otherwise the loop sleeps and tries again. Sleeping takes time only and is not modelled.
\<close>

record retrying =
  wait_random_min :: nat
  wait_random_max :: nat
  stop_max_attempt_number :: nat
  retry_on_exception :: "error \<Rightarrow> bool"

definition always_reject :: "error \<Rightarrow> bool" where
  "always_reject e = True"

definition retry :: "nat \<Rightarrow> nat \<Rightarrow> nat \<Rightarrow> retrying" where
  "retry wmin wmax n =
     \<lparr> wait_random_min = wmin, wait_random_max = wmax,
       stop_max_attempt_number = n, retry_on_exception = always_reject \<rparr>"

function call ::
  "retrying \<Rightarrow> ('w \<Rightarrow> (error + 'a) \<times> 'w) \<Rightarrow> nat \<Rightarrow> 'w \<Rightarrow> (error + 'a) \<times> 'w" where
  "call r fn attempt_number w =
     (case fn w of
        (Inr v, w') \<Rightarrow> (Inr v, w')
      | (Inl e, w') \<Rightarrow>
          if \<not> retry_on_exception r e then (Inl e, w')
          else if stop_max_attempt_number r \<le> attempt_number then (Inl e, w')
          else call r fn (attempt_number + 1) w')"
  by pat_completeness auto
termination
  by (relation "measure (\<lambda>(r, fn, n, w). stop_max_attempt_number r - n)") auto

definition get_match_history_and_retry_on_failure ::
  "'w client \<Rightarrow> pyval \<Rightarrow> pyval \<Rightarrow> kwargs \<Rightarrow> 'w \<Rightarrow> (error + payload) \<times> 'w" where
  "get_match_history_and_retry_on_failure self start_at_match_seq account_id kwargs =
     call (retry 5000 60000 5)
       (get_match_history self account_id ((''start_at_match_seq'', start_at_match_seq) # kwargs))
       1"

definition get_match_details_and_retry_on_failure ::
  "'w client \<Rightarrow> pyval \<Rightarrow> kwargs \<Rightarrow> 'w \<Rightarrow> (error + payload) \<times> 'w" where
  "get_match_details_and_retry_on_failure self match_id_arg kwargs =
     call (retry 5000 60000 5) (get_match_details self match_id_arg kwargs) 1"

section \<open>The batch walk\<close>

text \<open>
  Subscripting a parsed body: a dictionary without the key raises \<^verbatim>\<open>KeyError\<close>,
  \<^verbatim>\<open>None\<close> raises \<^verbatim>\<open>TypeError\<close>.
\<close>

definition history_of :: "payload \<Rightarrow> error + history_page" where
  "history_of p =
     (case p of HistoryPage h \<Rightarrow> Inr h | NonePayload \<Rightarrow> Inl TypeError | _ \<Rightarrow> Inl KeyError)"

definition heroes_of :: "payload \<Rightarrow> error + hero list" where
  "heroes_of p =
     (case p of HeroList hs \<Rightarrow> Inr hs | NonePayload \<Rightarrow> Inl TypeError | _ \<Rightarrow> Inl KeyError)"

text \<open>\<^verbatim>\<open>hist['matches'][-1]['match_id'] - 1\<close>, which raises on an empty list.\<close>

definition match_start_index_after :: "history_page \<Rightarrow> error + int" where
  "match_start_index_after page =
     (if matches page = [] then Inl IndexError
      else Inr (match_id (last (matches page)) - 1))"

text \<open>
  The \<^verbatim>\<open>for eachMatch in match_batch_iterable\<close> loop: one details request per summary,
  appended to \<open>matches_acc\<close>. The progress bar and the pauses are not modelled, so
  \<open>silently\<close> changes nothing below.
\<close>

fun for_each_match ::
  "'w client \<Rightarrow> match_summary list \<Rightarrow> payload list \<Rightarrow> 'w \<Rightarrow> (error + payload list) \<times> 'w" where
  "for_each_match self [] matches_acc w = (Inr matches_acc, w)"
| "for_each_match self (eachMatch # rest) matches_acc w =
     (case get_match_details_and_retry_on_failure self (PInt (match_id eachMatch)) [] w of
        (Inl e, w') \<Rightarrow> (Inl e, w')
      | (Inr details, w') \<Rightarrow> for_each_match self rest (matches_acc @ [details]) w')"

text \<open>
  One pass through the body of \<^verbatim>\<open>while remaining_matches > 0\<close>: it returns the new
  \<open>remaining_matches\<close>, the next \<open>hist\<close> and the grown \<open>matches\<close>. The request for the next
  page is the one of line 88: \<^verbatim>\<open>start_at_match_id\<close> and \<^verbatim>\<open>account_id\<close> only.
\<close>

definition batch_step ::
  "'w client \<Rightarrow> pyval \<Rightarrow> bool \<Rightarrow> payload \<Rightarrow> payload list \<Rightarrow> 'w \<Rightarrow>
   (error + int \<times> payload \<times> payload list) \<times> 'w" where
  "batch_step self account_id silently hist matches_acc w =
     (case history_of hist of
        Inl e \<Rightarrow> (Inl e, w)
      | Inr page \<Rightarrow>
          (case for_each_match self (matches page) matches_acc w of
             (Inl e, w1) \<Rightarrow> (Inl e, w1)
           | (Inr matches1, w1) \<Rightarrow>
               (case match_start_index_after page of
                  Inl e \<Rightarrow> (Inl e, w1)
                | Inr match_start_index \<Rightarrow>
                    (case get_match_history_and_retry_on_failure self PNone account_id
                            [(''start_at_match_id'', PInt match_start_index)] w1 of
                       (Inl e, w2) \<Rightarrow> (Inl e, w2)
                     | (Inr hist', w2) \<Rightarrow>
                         (Inr (results_remaining page, hist', matches1), w2)))))"

text \<open>The while loop. It has no bound of its own, so a run that never ends is \<open>None\<close>.\<close>

partial_function (option) batch_loop ::
  "'w client \<Rightarrow> pyval \<Rightarrow> bool \<Rightarrow> int \<Rightarrow> payload \<Rightarrow> payload list \<Rightarrow> 'w \<Rightarrow>
   ((error + payload list) \<times> 'w) option" where
  "batch_loop self account_id silently remaining_matches hist matches_acc w =
     (if remaining_matches > 0 then
        (case batch_step self account_id silently hist matches_acc w of
           (Inl e, w') \<Rightarrow> Some (Inl e, w')
         | (Inr (remaining_matches', hist', matches'), w') \<Rightarrow>
             batch_loop self account_id silently remaining_matches' hist' matches' w')
      else Some (Inr matches_acc, w))"

declare batch_loop.simps [code]


text \<open>
  \<^verbatim>\<open>__get_all_match_history_in_batches\<close>. The local \<open>hist\<close> is assigned only when
  \<open>initial_hist\<close> is \<^verbatim>\<open>None\<close>; otherwise it is unbound when line 71 reads it.
\<close>

definition get_all_match_history_in_batches ::
  "'w client \<Rightarrow> pyval \<Rightarrow> bool \<Rightarrow> payload option \<Rightarrow> kwargs \<Rightarrow> 'w \<Rightarrow>
   ((error + payload list) \<times> 'w) option" where
  "get_all_match_history_in_batches self account_id silently initial_hist kwargs w =
     (let match_start_index = 0 in
      case (if initial_hist = None then
              (case get_match_history_and_retry_on_failure self PNone account_id
                      ((''start_at_match_id'', PInt match_start_index) # kwargs) w of
                 (Inl e, w1) \<Rightarrow> (Inl e, w1)
               | (Inr h, w1) \<Rightarrow> (Inr (Some h), w1))
            else (Inr None, w)) of
        (Inl e, w1) \<Rightarrow> Some (Inl e, w1)
      | (Inr None, w1) \<Rightarrow> Some (Inl UnboundLocalError, w1)
      | (Inr (Some hist), w1) \<Rightarrow>
          (case history_of hist of
             Inl e \<Rightarrow> Some (Inl e, w1)
           | Inr page \<Rightarrow>
               batch_loop self account_id silently (total_results page) hist [] w1))"

text \<open>The \<^verbatim>\<open>for each_hero in heroes_iterable\<close> loop of the over-cap branch.\<close>

fun for_each_hero ::
  "'w client \<Rightarrow> pyval \<Rightarrow> bool \<Rightarrow> hero list \<Rightarrow> payload list \<Rightarrow> 'w \<Rightarrow>
   ((error + payload list) \<times> 'w) option" where
  "for_each_hero self account_id silently [] matches_acc w = Some (Inr matches_acc, w)"
| "for_each_hero self account_id silently (each_hero # rest) matches_acc w =
     (case get_all_match_history_in_batches self account_id silently None
             [(''hero_id'', PInt (id_hero each_hero))] w of
        None \<Rightarrow> None
      | Some (Inl e, w') \<Rightarrow> Some (Inl e, w')
      | Some (Inr hero_matches, w') \<Rightarrow>
          for_each_hero self account_id silently rest (matches_acc @ hero_matches) w')"

definition get_all_matches_for_user ::
  "'w client \<Rightarrow> pyval \<Rightarrow> bool \<Rightarrow> 'w \<Rightarrow> ((error + payload list) \<times> 'w) option" where
  "get_all_matches_for_user self account_id silently w =
     (case get_match_history_and_retry_on_failure self PNone account_id [] w of
        (Inl e, w1) \<Rightarrow> Some (Inl e, w1)
      | (Inr hist, w1) \<Rightarrow>
          (case history_of hist of
             Inl e \<Rightarrow> Some (Inl e, w1)
           | Inr page \<Rightarrow>
               if total_results page < 500 then
                 get_all_match_history_in_batches self account_id silently (Some hist) [] w1
               else
                 (case get_heroes self w1 of
                    (Inl e, w2) \<Rightarrow> Some (Inl e, w2)
                  | (Inr heroes, w2) \<Rightarrow>
                      (case heroes_of heroes of
                         Inl e \<Rightarrow> Some (Inl e, w2)
                       | Inr hs \<Rightarrow> for_each_hero self account_id silently hs [] w2))))"

section \<open>A counting collaborator\<close>

text \<open>
  The executor of a test that counts: it runs the given executor and appends the url of
  every call to a log kept beside the state of the world.
\<close>

definition counting ::
  "(url \<Rightarrow> 'w \<Rightarrow> response \<times> 'w) \<Rightarrow> url \<Rightarrow> 'w \<times> url list \<Rightarrow> response \<times> 'w \<times> url list" where
  "counting exec u = (\<lambda>(w, log). case exec u w of (r, w') \<Rightarrow> (r, (w', log @ [u])))"

section \<open>Test doubles\<close>

text \<open>
  Collaborators for the examples below. \<open>always_status\<close> answers every request with the
  same status code and counts its calls; \<open>scripted\<close> answers from a list of prepared
  responses; \<open>upstream\<close> is a stable service over a fixed table of matches, newest first,
  each with the hero played: a history request is answered with the first \<open>page_size\<close>
  matches that pass the \<^verbatim>\<open>hero_id\<close> filter and are not newer than a positive
  \<^verbatim>\<open>start_at_match_id\<close>.
\<close>

definition ok :: "payload \<Rightarrow> response" where
  "ok p = \<lparr> status_code = 200, json = p \<rparr>"

definition always_status :: "int \<Rightarrow> url \<Rightarrow> nat \<Rightarrow> response \<times> nat" where
  "always_status code u calls = (\<lparr> status_code = code, json = NonePayload \<rparr>, Suc calls)"

definition scripted :: "url \<Rightarrow> response list \<Rightarrow> response \<times> response list" where
  "scripted u w = (case w of [] \<Rightarrow> (ok NonePayload, []) | r # rs \<Rightarrow> (r, rs))"

definition summary :: "int \<Rightarrow> match_summary" where
  "summary i = \<lparr> match_id = i \<rparr>"

definition page_of :: "int list \<Rightarrow> int \<Rightarrow> int \<Rightarrow> payload" where
  "page_of ids tot remaining =
     HistoryPage \<lparr> matches = map summary ids, total_results = tot,
                   results_remaining = remaining, num_results = int (length ids) \<rparr>"

definition details_of :: "int \<Rightarrow> payload" where
  "details_of i = MatchDetails \<lparr> details_match_id = i \<rparr>"

definition played_by :: "pyval option \<Rightarrow> int \<times> int \<Rightarrow> bool" where
  "played_by h row = (case h of Some (PInt i) \<Rightarrow> snd row = i | _ \<Rightarrow> True)"

definition not_newer :: "pyval option \<Rightarrow> int \<times> int \<Rightarrow> bool" where
  "not_newer c row = (case c of Some (PInt i) \<Rightarrow> i \<le> 0 \<or> fst row \<le> i | _ \<Rightarrow> True)"

definition upstream ::
  "nat \<Rightarrow> (int \<times> int) list \<Rightarrow> hero list \<Rightarrow> url \<Rightarrow> unit \<Rightarrow> response \<times> unit" where
  "upstream page_size table heroes u w =
     (case endpoint u of
        GET_MATCH_HISTORY \<Rightarrow>
          (let of_hero = filter (played_by (map_of (query u) ''hero_id'')) table;
               older = filter (not_newer (map_of (query u) ''start_at_match_id'')) of_hero;
               batch = take page_size older
           in (ok (page_of (map fst batch) (int (length of_hero))
                     (int (length older) - int (length batch))), w))
      | GET_MATCH_DETAILS \<Rightarrow>
          (case map_of (query u) ''match_id'' of
             Some (PInt i) \<Rightarrow> (ok (details_of i), w)
           | _ \<Rightarrow> (ok NonePayload, w))
      | GET_HEROES \<Rightarrow> (ok (HeroList heroes), w))"

definition client_of :: "(url \<Rightarrow> 'w \<Rightarrow> response \<times> 'w) \<Rightarrow> 'w client" where
  "client_of ex =
     \<lparr> api_key = ''K'', language = ''en_us'', executor = ex, logger = False,
       format = ''json'' \<rparr>"

definition no_environ :: "string \<rightharpoonup> string" where
  "no_environ = Map.empty"

text \<open>
  An account with 600 matches, ids 1001 to 1600: the 200 newest played with hero 1, the
  next 200 with hero 2, the 200 oldest with hero 3.
\<close>

definition hero_of_match :: "int \<Rightarrow> int" where
  "hero_of_match i = (if 1400 < i then 1 else if 1200 < i then 2 else 3)"

definition played :: "int \<Rightarrow> int \<times> int" where
  "played i = (i, hero_of_match i)"

definition table600 :: "(int \<times> int) list" where
  "table600 = map played (rev [1001..1600])"

definition heroes3 :: "hero list" where
  "heroes3 = [\<lparr> id_hero = 1, localized_name = ''Anti-Mage'' \<rparr>,
              \<lparr> id_hero = 2, localized_name = ''Axe'' \<rparr>,
              \<lparr> id_hero = 3, localized_name = ''Bane'' \<rparr>]"

section \<open>Properties\<close>

text \<open>
  C10. For every integer \<open>n\<close>, \<open>convert_to_64_bit n\<close> is \<open>n + 76561197960265728\<close> when
  \<open>n < 76561197960265728\<close> and \<open>n\<close> otherwise; for every non-negative \<open>n\<close> the function is
  idempotent and its result is at least \<open>76561197960265728\<close>.
\<close>

theorem convert_to_64_bit_spec:
  "(n < 76561197960265728 \<longrightarrow> convert_to_64_bit n = n + 76561197960265728) \<and>
   (\<not> n < 76561197960265728 \<longrightarrow> convert_to_64_bit n = n) \<and>
   (0 \<le> n \<longrightarrow> convert_to_64_bit (convert_to_64_bit n) = convert_to_64_bit n \<and>
              76561197960265728 \<le> convert_to_64_bit n)"
  by (simp add: convert_to_64_bit_def min64b_def)

theorem convert_to_64_bit_spec_witness:
  "(5::int) < 76561197960265728 \<and> convert_to_64_bit 5 = 76561197960265733 \<and>
   \<not> (76561197960265729::int) < 76561197960265728 \<and>
   convert_to_64_bit 76561197960265729 = 76561197960265729 \<and>
   (0::int) \<le> 5 \<and> convert_to_64_bit (convert_to_64_bit 5) = convert_to_64_bit 5 \<and>
   76561197960265728 \<le> convert_to_64_bit 5"
  using convert_to_64_bit_spec [of 5] convert_to_64_bit_spec [of 76561197960265729]
  by (simp add: convert_to_64_bit_def min64b_def)

subsection \<open>Requests through a counting executor\<close>

lemma fetch_counting:
  assumes "executor self = counting exec"
  shows "fetch self u (w, log) =
     (case check_http_err self (status_code (fst (exec u w))) of
        Inl e \<Rightarrow> Inl e | Inr b \<Rightarrow> Inr (json (fst (exec u w))),
      (snd (exec u w), log @ [u]))"
  using assms
  by (simp add: fetch_def counting_def check_http_err_def response_build_def split: prod.splits)

lemma call_always_failing:
  assumes ex: "executor self = counting exec"
    and bad: "\<And>u w. check_http_err self (status_code (fst (exec u w))) = Inl e"
  shows "n \<le> m \<Longrightarrow> \<exists>w'. call (retry a b m) (fetch self u) n (w, log)
            = (Inl e, (w', log @ replicate (Suc (m - n)) u))"
proof (induction "m - n" arbitrary: n w log)
  case 0
  then have "m = n" by simp
  then show ?case
    by (subst call.simps) (simp add: fetch_counting [OF ex] bad retry_def always_reject_def)
next
  case (Suc k)
  then have lt: "n < m" and k: "k = m - (n + 1)" and le: "n + 1 \<le> m" by simp_all
  from Suc.hyps(1) [OF k le]
  obtain w' where "call (retry a b m) (fetch self u) (n + 1) (snd (exec u w), log @ [u])
            = (Inl e, (w', (log @ [u]) @ replicate (Suc (m - (n + 1))) u))" by blast
  moreover have "Suc (m - n) = Suc (Suc (m - (n + 1)))" using lt by simp
  ultimately show ?case using lt
    by (subst call.simps)
       (simp add: fetch_counting [OF ex] bad retry_def always_reject_def replicate_app_Cons_same)
qed

lemma call_fetch_log:
  assumes ex: "executor self = counting exec"
  shows "call (retry a b m) (fetch self u) n (w, log) = (res, (w', log')) \<Longrightarrow>
         \<exists>k. 1 \<le> k \<and> k \<le> max 1 (Suc (m - n)) \<and> log' = log @ replicate k u"
proof (induction "m - n" arbitrary: n w log)
  case 0
  then have "m \<le> n" by simp
  with 0(2) have "log' = log @ [u]"
    by (subst (asm) call.simps)
       (auto simp: fetch_counting [OF ex] retry_def always_reject_def split: sum.splits)
  then show ?case by (intro exI [of _ 1]) simp
next
  case (Suc k)
  then have lt: "n < m" and k: "k = m - (n + 1)" by simp_all
  show ?case
  proof (cases "check_http_err self (status_code (fst (exec u w)))")
    case (Inr b)
    with Suc(3) have "log' = log @ [u]"
      by (subst (asm) call.simps) (auto simp: fetch_counting [OF ex])
    then show ?thesis by (intro exI [of _ 1]) simp
  next
    case (Inl e)
    with Suc(3) lt have "call (retry a b m) (fetch self u) (n + 1) (snd (exec u w), log @ [u])
        = (res, (w', log'))"
      by (subst (asm) call.simps) (simp add: fetch_counting [OF ex] retry_def always_reject_def)
    from Suc.hyps(1) [OF k this]
    obtain j where j: "1 \<le> j" "j \<le> max 1 (Suc (m - (n + 1)))" "log' = (log @ [u]) @ replicate j u"
      by blast
    show ?thesis
      using j lt by (intro exI [of _ "Suc j"]) (simp add: replicate_app_Cons_same)
  qed
qed

lemmas request_defs =
  get_match_history_and_retry_on_failure_def get_match_details_and_retry_on_failure_def
  get_match_history_def get_match_details_def get_heroes_def

lemmas double_defs =
  ok_def always_status_def scripted_def summary_def page_of_def details_of_def played_by_def
  not_newer_def upstream_def client_of_def no_environ_def counting_def

lemmas eval_defs =
  request_defs fetch_def build_url_def setdefault_def check_http_err_def response_build_def
  history_of_def heroes_of_def match_start_index_after_def retry_def always_reject_def
  get_all_matches_for_user_def get_all_match_history_in_batches_def batch_step_def

subsection \<open>The retry bound\<close>

text \<open>
  C4. When every attempt of the wrapped fetch raises \<^verbatim>\<open>APITimeoutError\<close> (the executor
  answers 503 every time), each retry wrapper makes exactly 5 attempts, seen as 5 calls
  of a counting executor with the same url, and then raises that \<^verbatim>\<open>APITimeoutError\<close>.
\<close>

theorem retry_bound:
  assumes "executor self = counting exec"
    and "\<forall>u w. status_code (fst (exec u w)) = 503"
  shows "(\<exists>w'. get_match_history_and_retry_on_failure self seq account_id kwargs (w, log) =
            (Inl APITimeoutError,
             (w', log @ replicate 5 (build_url self GET_MATCH_HISTORY
                    (setdefault ''account_id'' account_id
                       ((''start_at_match_seq'', seq) # kwargs)))))) \<and>
         (\<exists>w'. get_match_details_and_retry_on_failure self mid kwargs (w, log) =
            (Inl APITimeoutError,
             (w', log @ replicate 5 (build_url self GET_MATCH_DETAILS
                    (setdefault ''match_id'' mid kwargs)))))"
proof -
  have bad: "\<And>u w. check_http_err self (status_code (fst (exec u w))) = Inl APITimeoutError"
    using assms(2) by (simp add: check_http_err_def)
  show ?thesis
    using call_always_failing [OF assms(1) bad, of 1 5 5000 60000]
    by (simp add: request_defs)
qed

theorem retry_bound_witness:
  "executor (client_of (counting (always_status 503))) = counting (always_status 503) \<and>
   (\<forall>u w. status_code (fst (always_status 503 u w)) = 503) \<and>
   fst (get_match_history_and_retry_on_failure (client_of (counting (always_status 503)))
          PNone (PInt 42) [] (0, [])) = Inl APITimeoutError \<and>
   length (snd (snd (get_match_history_and_retry_on_failure
          (client_of (counting (always_status 503))) PNone (PInt 42) [] (0, [])))) = 5 \<and>
   fst (get_match_details_and_retry_on_failure (client_of (counting (always_status 503)))
          (PInt 7) [] (0, [])) = Inl APITimeoutError \<and>
   length (snd (snd (get_match_details_and_retry_on_failure
          (client_of (counting (always_status 503))) (PInt 7) [] (0, [])))) = 5"
proof -
  have h1: "executor (client_of (counting (always_status 503))) = counting (always_status 503)"
    by (simp add: client_of_def)
  have h2: "\<forall>u w. status_code (fst (always_status 503 u w)) = 503"
    by (simp add: always_status_def)
  from retry_bound [OF h1 h2, of PNone "PInt 42" "[]" 0 "[]" "PInt 7"] h1 h2
  show ?thesis by auto
qed

subsection \<open>Failures that are not transient\<close>

text \<open>
  C3, as the code has it. The wrappers give the decorator no predicate on exceptions, so an
  \<^verbatim>\<open>APIAuthenticationError\<close> is retried like any other failure: when the executor
  answers 403 every time, each retry wrapper makes exactly 5 attempts and then raises the
  \<^verbatim>\<open>APIAuthenticationError\<close> of the last one.
\<close>

theorem auth_failure_retried:
  assumes "executor self = counting exec"
    and "\<forall>u w. status_code (fst (exec u w)) = 403"
  shows "(\<exists>w'. get_match_history_and_retry_on_failure self seq account_id kwargs (w, log) =
            (Inl (APIAuthenticationError (Some (api_key self))),
             (w', log @ replicate 5 (build_url self GET_MATCH_HISTORY
                    (setdefault ''account_id'' account_id
                       ((''start_at_match_seq'', seq) # kwargs)))))) \<and>
         (\<exists>w'. get_match_details_and_retry_on_failure self mid kwargs (w, log) =
            (Inl (APIAuthenticationError (Some (api_key self))),
             (w', log @ replicate 5 (build_url self GET_MATCH_DETAILS
                    (setdefault ''match_id'' mid kwargs)))))"
proof -
  have bad: "\<And>u w. check_http_err self (status_code (fst (exec u w)))
                = Inl (APIAuthenticationError (Some (api_key self)))"
    using assms(2) by (simp add: check_http_err_def)
  show ?thesis
    using call_always_failing [OF assms(1) bad, of 1 5 5000 60000]
    by (simp add: request_defs)
qed

theorem auth_failure_retried_witness:
  "executor (client_of (counting (always_status 403))) = counting (always_status 403) \<and>
   (\<forall>u w. status_code (fst (always_status 403 u w)) = 403) \<and>
   fst (get_match_history_and_retry_on_failure (client_of (counting (always_status 403)))
          PNone (PInt 42) [] (0, [])) = Inl (APIAuthenticationError (Some ''K'')) \<and>
   length (snd (snd (get_match_history_and_retry_on_failure
          (client_of (counting (always_status 403))) PNone (PInt 42) [] (0, [])))) = 5 \<and>
   fst (get_match_details_and_retry_on_failure (client_of (counting (always_status 403)))
          (PInt 7) [] (0, [])) = Inl (APIAuthenticationError (Some ''K'')) \<and>
   length (snd (snd (get_match_details_and_retry_on_failure
          (client_of (counting (always_status 403))) (PInt 7) [] (0, [])))) = 5"
proof -
  have h1: "executor (client_of (counting (always_status 403))) = counting (always_status 403)"
    by (simp add: client_of_def)
  have h2: "\<forall>u w. status_code (fst (always_status 403 u w)) = 403"
    by (simp add: always_status_def)
  have k: "api_key (client_of (counting (always_status 403))) = ''K''"
    by (simp add: client_of_def)
  from auth_failure_retried [OF h1 h2, of PNone "PInt 42" "[]" 0 "[]" "PInt 7"] h1 h2 k
  show ?thesis by auto
qed

text \<open>
  The claim as written asks for exactly one attempt. With an executor that answers 403 to
  every request, each wrapper calls it five times.
\<close>

theorem auth_failure_single_attempt_counterexample:
  "fst (get_match_history_and_retry_on_failure (client_of (always_status 403))
          PNone (PInt 42) [] 0) = Inl (APIAuthenticationError (Some ''K'')) \<and>
   snd (get_match_history_and_retry_on_failure (client_of (always_status 403))
          PNone (PInt 42) [] 0) = 5 \<and>
   fst (get_match_details_and_retry_on_failure (client_of (always_status 403))
          (PInt 7) [] 0) = Inl (APIAuthenticationError (Some ''K'')) \<and>
   snd (get_match_details_and_retry_on_failure (client_of (always_status 403))
          (PInt 7) [] 0) = 5"
  by (simp add: eval_defs double_defs)

subsection \<open>Status codes\<close>

text \<open>
  C7. For every status code the executor returns, \<^verbatim>\<open>get_match_history\<close> and
  \<^verbatim>\<open>get_match_details\<close> raise \<^verbatim>\<open>APIAuthenticationError\<close> exactly when the code is 403,
  raise \<^verbatim>\<open>APITimeoutError\<close> exactly when it is 503, and for every other code raise
  nothing and return the parsed body of the response.
\<close>

theorem status_code_errors:
  assumes "executor self (build_url self GET_MATCH_HISTORY
             (setdefault ''account_id'' account_id kwargs)) w = (req, w')"
    and "executor self (build_url self GET_MATCH_DETAILS
             (setdefault ''match_id'' mid kwargs)) w = (req2, w2)"
  shows "((\<exists>k. fst (get_match_history self account_id kwargs w) = Inl (APIAuthenticationError k))
            \<longleftrightarrow> status_code req = 403) \<and>
         (fst (get_match_history self account_id kwargs w) = Inl APITimeoutError
            \<longleftrightarrow> status_code req = 503) \<and>
         (status_code req \<noteq> 403 \<and> status_code req \<noteq> 503 \<longrightarrow>
            get_match_history self account_id kwargs w =
              (Inr (response_build req (build_url self GET_MATCH_HISTORY
                      (setdefault ''account_id'' account_id kwargs))), w') \<and>
            response_build req (build_url self GET_MATCH_HISTORY
                      (setdefault ''account_id'' account_id kwargs)) = json req) \<and>
         ((\<exists>k. fst (get_match_details self mid kwargs w) = Inl (APIAuthenticationError k))
            \<longleftrightarrow> status_code req2 = 403) \<and>
         (fst (get_match_details self mid kwargs w) = Inl APITimeoutError
            \<longleftrightarrow> status_code req2 = 503) \<and>
         (status_code req2 \<noteq> 403 \<and> status_code req2 \<noteq> 503 \<longrightarrow>
            get_match_details self mid kwargs w =
              (Inr (response_build req2 (build_url self GET_MATCH_DETAILS
                      (setdefault ''match_id'' mid kwargs))), w2) \<and>
            response_build req2 (build_url self GET_MATCH_DETAILS
                      (setdefault ''match_id'' mid kwargs)) = json req2)"
  using assms
  by (simp add: get_match_history_def get_match_details_def fetch_def check_http_err_def
        response_build_def)

theorem status_code_errors_witness:
  "get_match_history (client_of scripted) (PInt 42) [] [ok (page_of [7] 1 0)] =
     (Inr (page_of [7] 1 0), []) \<and>
   get_match_details (client_of scripted) (PInt 7) [] [ok (details_of 7)] =
     (Inr (details_of 7), []) \<and>
   (\<exists>k. fst (get_match_history (client_of (always_status 403)) (PInt 42) [] 0) =
     Inl (APIAuthenticationError k)) \<and>
   fst (get_match_details (client_of (always_status 503)) (PInt 7) [] 0) = Inl APITimeoutError"
proof -
  have a: "executor (client_of scripted) (build_url (client_of scripted) GET_MATCH_HISTORY
             (setdefault ''account_id'' (PInt 42) [])) [ok (page_of [7] 1 0)]
           = (ok (page_of [7] 1 0), [])"
    by (simp add: client_of_def scripted_def)
  have b: "executor (client_of scripted) (build_url (client_of scripted) GET_MATCH_DETAILS
             (setdefault ''match_id'' (PInt 7) [])) [ok (page_of [7] 1 0)]
           = (ok (page_of [7] 1 0), [])"
    by (simp add: client_of_def scripted_def)
  have c: "executor (client_of scripted) (build_url (client_of scripted) GET_MATCH_DETAILS
             (setdefault ''match_id'' (PInt 7) [])) [ok (details_of 7)]
           = (ok (details_of 7), [])"
    by (simp add: client_of_def scripted_def)
  have d: "executor (client_of scripted) (build_url (client_of scripted) GET_MATCH_HISTORY
             (setdefault ''account_id'' (PInt 42) [])) [ok (details_of 7)]
           = (ok (details_of 7), [])"
    by (simp add: client_of_def scripted_def)
  have e: "executor (client_of (always_status 403)) (build_url (client_of (always_status 403))
             GET_MATCH_HISTORY (setdefault ''account_id'' (PInt 42) [])) 0
           = (\<lparr>status_code = 403, json = NonePayload\<rparr>, Suc 0)"
    by (simp add: client_of_def always_status_def)
  have f: "executor (client_of (always_status 403)) (build_url (client_of (always_status 403))
             GET_MATCH_DETAILS (setdefault ''match_id'' (PInt 7) [])) 0
           = (\<lparr>status_code = 403, json = NonePayload\<rparr>, Suc 0)"
    by (simp add: client_of_def always_status_def)
  have g: "executor (client_of (always_status 503)) (build_url (client_of (always_status 503))
             GET_MATCH_HISTORY (setdefault ''account_id'' (PInt 42) [])) 0
           = (\<lparr>status_code = 503, json = NonePayload\<rparr>, Suc 0)"
    by (simp add: client_of_def always_status_def)
  have h: "executor (client_of (always_status 503)) (build_url (client_of (always_status 503))
             GET_MATCH_DETAILS (setdefault ''match_id'' (PInt 7) [])) 0
           = (\<lparr>status_code = 503, json = NonePayload\<rparr>, Suc 0)"
    by (simp add: client_of_def always_status_def)
  have s: "status_code (ok (page_of [7] 1 0)) = 200" "status_code (ok (details_of 7)) = 200"
          "json (ok (page_of [7] 1 0)) = page_of [7] 1 0" "json (ok (details_of 7)) = details_of 7"
    by (simp_all add: ok_def)
  have "get_match_history (client_of scripted) (PInt 42) [] [ok (page_of [7] 1 0)] =
     (Inr (page_of [7] 1 0), [])"
    using status_code_errors [OF a b] s by (simp add: response_build_def)
  moreover have "get_match_details (client_of scripted) (PInt 7) [] [ok (details_of 7)] =
     (Inr (details_of 7), [])"
    using status_code_errors [OF d c] s by (simp add: response_build_def)
  moreover have "\<exists>k. fst (get_match_history (client_of (always_status 403)) (PInt 42) [] 0) =
     Inl (APIAuthenticationError k)"
    using status_code_errors [OF e f] by simp
  moreover have "fst (get_match_details (client_of (always_status 503)) (PInt 7) [] 0) =
     Inl APITimeoutError"
    using status_code_errors [OF g h] by simp
  ultimately show ?thesis by blast
qed

subsection \<open>Construction and the api key\<close>

text \<open>
  C8, as the code has it. \<^verbatim>\<open>__init__\<close> tests the truth value of \<open>api_key\<close>, so an empty
  string counts as no key. Construction fails, with \<^verbatim>\<open>APIAuthenticationError()\<close>, if and
  only if the \<open>api_key\<close> argument is absent or empty and \<^verbatim>\<open>D2_API_KEY\<close> is not in the
  environment. A non-empty \<open>api_key\<close> argument becomes the key of the instance whatever the
  environment holds; otherwise the value of \<^verbatim>\<open>D2_API_KEY\<close> does. A constructed instance
  always has its key, so building a url during aggregation never lacks one.
\<close>

theorem Initialise_api_key:
  "((\<exists>e. Initialise requests_get environ api_key_arg executor_arg language_arg logging = Inl e)
      \<longleftrightarrow> (api_key_arg = None \<or> api_key_arg = Some []) \<and> environ ''D2_API_KEY'' = None) \<and>
   ((api_key_arg = None \<or> api_key_arg = Some []) \<and> environ ''D2_API_KEY'' = None \<longrightarrow>
      Initialise requests_get environ api_key_arg executor_arg language_arg logging
        = Inl (APIAuthenticationError None)) \<and>
   (\<forall>k. api_key_arg = Some k \<and> k \<noteq> [] \<longrightarrow>
      (\<exists>self. Initialise requests_get environ api_key_arg executor_arg language_arg logging
                 = Inr self \<and> api_key self = k)) \<and>
   (\<forall>k. (api_key_arg = None \<or> api_key_arg = Some []) \<and> environ ''D2_API_KEY'' = Some k \<longrightarrow>
      (\<exists>self. Initialise requests_get environ api_key_arg executor_arg language_arg logging
                 = Inr self \<and> api_key self = k))"
  by (cases api_key_arg) (auto simp: Initialise_def truthy_def split: option.splits)

theorem Initialise_api_key_witness:
  "(\<exists>self. Initialise scripted [''D2_API_KEY'' \<mapsto> ''E''] (Some ''A'') None None False
             = Inr self \<and> api_key self = ''A'') \<and>
   (\<exists>self. Initialise scripted [''D2_API_KEY'' \<mapsto> ''E''] None None None False
             = Inr self \<and> api_key self = ''E'') \<and>
   Initialise scripted no_environ None None None False = Inl (APIAuthenticationError None)"
proof -
  have a: "Some ''A'' = Some ''A'' \<and> ''A'' \<noteq> []" by simp
  have b: "((None :: string option) = None \<or> (None :: string option) = Some []) \<and>
           [''D2_API_KEY'' \<mapsto> ''E''] ''D2_API_KEY'' = Some ''E''" by simp
  have c: "((None :: string option) = None \<or> (None :: string option) = Some []) \<and>
           no_environ ''D2_API_KEY'' = None" by (simp add: no_environ_def)
  from Initialise_api_key [of scripted "[''D2_API_KEY'' \<mapsto> ''E'']" "Some ''A''" None None False]
       a
  have "\<exists>self. Initialise scripted [''D2_API_KEY'' \<mapsto> ''E''] (Some ''A'') None None False
             = Inr self \<and> api_key self = ''A''" by blast
  moreover from Initialise_api_key [of scripted "[''D2_API_KEY'' \<mapsto> ''E'']" None None None False]
       b
  have "\<exists>self. Initialise scripted [''D2_API_KEY'' \<mapsto> ''E''] None None None False
             = Inr self \<and> api_key self = ''E''" by blast
  moreover from Initialise_api_key [of scripted no_environ None None None False] c
  have "Initialise scripted no_environ None None None False = Inl (APIAuthenticationError None)"
    by blast
  ultimately show ?thesis by blast
qed

text \<open>
  The claim as written lets construction fail only when no \<open>api_key\<close> argument is
  supplied. With the empty string supplied and no \<^verbatim>\<open>D2_API_KEY\<close> it fails too.
\<close>

theorem Initialise_empty_key_counterexample:
  "Initialise scripted no_environ (Some []) None None False = Inl (APIAuthenticationError None) \<and>
   Some [] \<noteq> (None :: string option)"
  by (simp add: Initialise_def truthy_def no_environ_def)

subsection \<open>The under-cap branch\<close>

lemma under_cap_unbound:
  assumes "get_match_history_and_retry_on_failure self PNone account_id [] w = (Inr hist, w1)"
    and "history_of hist = Inr page"
    and "total_results page < 500"
  shows "get_all_matches_for_user self account_id silently w = Some (Inl UnboundLocalError, w1)"
  using assms
  by (simp add: get_all_matches_for_user_def get_all_match_history_in_batches_def)

text \<open>
  C1, evaluated. The account's first page reports 2 results, both on that page. The
  under-cap branch hands the page to the batch walk as \<open>initial_hist\<close>; the walk never
  binds its local \<open>hist\<close> to it, and reading \<open>hist\<close> raises \<^verbatim>\<open>UnboundLocalError\<close> after the
  single request for the first page. No details are returned.
\<close>

theorem under_cap_raises_unbound_local:
  "get_all_matches_for_user (client_of (counting scripted)) (PInt 42) True
     ([ok (page_of [7, 5] 2 0), ok (details_of 7), ok (details_of 5), ok (page_of [] 2 0)], [])
   = Some (Inl UnboundLocalError,
           ([ok (details_of 7), ok (details_of 5), ok (page_of [] 2 0)],
            [\<lparr> endpoint = GET_MATCH_HISTORY,
               query = [(''start_at_match_seq'', PNone), (''account_id'', PInt 42),
                        (''key'', PStr ''K''), (''language'', PStr ''en_us''),
                        (''format'', PStr ''json'')] \<rparr>]))"
  by (simp add: eval_defs double_defs)

subsection \<open>One pass of the walk, seen by a counting executor\<close>

lemma details_request_log:
  assumes "executor self = counting exec"
    and "get_match_details_and_retry_on_failure self mid kwargs (w, log) = (res, (w', log'))"
  shows "\<exists>k. 1 \<le> k \<and> k \<le> 5 \<and>
           log' = log @ replicate k (build_url self GET_MATCH_DETAILS (setdefault ''match_id'' mid kwargs))"
  using call_fetch_log [OF assms(1), of 5000 60000 5 _ 1 w log res w' log'] assms(2)
  by (simp add: request_defs)

lemma history_request_log:
  assumes "executor self = counting exec"
    and "get_match_history_and_retry_on_failure self seq account_id kwargs (w, log)
           = (res, (w', log'))"
  shows "\<exists>k. 1 \<le> k \<and> k \<le> 5 \<and>
           log' = log @ replicate k (build_url self GET_MATCH_HISTORY
                    (setdefault ''account_id'' account_id ((''start_at_match_seq'', seq) # kwargs)))"
  using call_fetch_log [OF assms(1), of 5000 60000 5 _ 1 w log res w' log'] assms(2)
  by (simp add: request_defs)

lemma for_each_match_log:
  assumes ex: "executor self = counting exec"
  shows "for_each_match self ms matches_acc (w, log) = (Inr matches1, (w1, log1)) \<Longrightarrow>
         \<exists>ns ds. length ns = length ms \<and> (\<forall>k \<in> set ns. 1 \<le> k \<and> k \<le> 5) \<and>
                 length ds = length ms \<and> matches1 = matches_acc @ ds \<and>
                 log1 = log @ concat (map2 replicate ns
                          (map (\<lambda>m. build_url self GET_MATCH_DETAILS
                                  (setdefault ''match_id'' (PInt (match_id m)) [])) ms))"
proof (induction ms arbitrary: matches_acc w log)
  case Nil
  then show ?case by simp
next
  case (Cons m ms)
  let ?u = "build_url self GET_MATCH_DETAILS (setdefault ''match_id'' (PInt (match_id m)) [])"
  obtain res w2 log2 where
    d: "get_match_details_and_retry_on_failure self (PInt (match_id m)) [] (w, log)
          = (res, (w2, log2))"
    by (metis prod.exhaust)
  from Cons.prems d obtain details where res: "res = Inr details"
    and rest: "for_each_match self ms (matches_acc @ [details]) (w2, log2)
                 = (Inr matches1, (w1, log1))"
    by (cases res) auto
  from details_request_log [OF ex d]
  obtain k where k: "1 \<le> k" "k \<le> 5" "log2 = log @ replicate k ?u" by blast
  from Cons.IH [OF rest]
  obtain ns ds where r: "length ns = length ms" "\<forall>k \<in> set ns. 1 \<le> k \<and> k \<le> 5"
      "length ds = length ms" "matches1 = (matches_acc @ [details]) @ ds"
      "log1 = log2 @ concat (map2 replicate ns
                 (map (\<lambda>m. build_url self GET_MATCH_DETAILS
                         (setdefault ''match_id'' (PInt (match_id m)) [])) ms))"
    by blast
  show ?case
    using k r by (intro exI [of _ "k # ns"] exI [of _ "details # ds"]) simp
qed

lemma batch_step_log:
  assumes ex: "executor self = counting exec"
    and page: "history_of hist = Inr page"
    and step: "batch_step self account_id silently hist matches_acc (w, log)
                 = (Inr (remaining', hist', matches'), (w', log'))"
  shows "matches page \<noteq> [] \<and> remaining' = results_remaining page \<and>
         (\<exists>ns ds n. length ns = length (matches page) \<and> (\<forall>k \<in> set ns. 1 \<le> k \<and> k \<le> 5) \<and>
            length ds = length (matches page) \<and> matches' = matches_acc @ ds \<and>
            1 \<le> n \<and> n \<le> 5 \<and>
            log' = log @ concat (map2 replicate ns
                      (map (\<lambda>m. build_url self GET_MATCH_DETAILS
                              (setdefault ''match_id'' (PInt (match_id m)) [])) (matches page)))
                   @ replicate n (build_url self GET_MATCH_HISTORY
                        (setdefault ''account_id'' account_id
                           [(''start_at_match_seq'', PNone),
                            (''start_at_match_id'', PInt (match_id (last (matches page)) - 1))])))"
proof -
  obtain r1 w1 log1 where
    f: "for_each_match self (matches page) matches_acc (w, log) = (r1, (w1, log1))"
    by (metis prod.exhaust)
  from step page f obtain matches1 where r1: "r1 = Inr matches1"
    by (cases r1) (auto simp: batch_step_def)
  from step page f r1 have ne: "matches page \<noteq> []"
    by (auto simp: batch_step_def match_start_index_after_def split: if_splits)
  let ?c = "match_id (last (matches page)) - 1"
  obtain r2 w2 log2 where
    h: "get_match_history_and_retry_on_failure self PNone account_id
          [(''start_at_match_id'', PInt ?c)] (w1, log1) = (r2, (w2, log2))"
    by (metis prod.exhaust)
  from step page f r1 ne h have out: "remaining' = results_remaining page"
      "matches' = matches1" "log' = log2"
    by (cases r2; simp add: batch_step_def match_start_index_after_def)+
  from for_each_match_log [OF ex f [unfolded r1]]
  obtain ns ds where a: "length ns = length (matches page)" "\<forall>k \<in> set ns. 1 \<le> k \<and> k \<le> 5"
      "length ds = length (matches page)" "matches1 = matches_acc @ ds"
      "log1 = log @ concat (map2 replicate ns
                 (map (\<lambda>m. build_url self GET_MATCH_DETAILS
                         (setdefault ''match_id'' (PInt (match_id m)) [])) (matches page)))"
    by blast
  from history_request_log [OF ex h]
  obtain n where n: "1 \<le> n" "n \<le> 5"
      "log2 = log1 @ replicate n (build_url self GET_MATCH_HISTORY
                (setdefault ''account_id'' account_id
                   [(''start_at_match_seq'', PNone), (''start_at_match_id'', PInt ?c)]))"
    by blast
  show ?thesis
    using ne out a n by (intro conjI exI [of _ ns] exI [of _ ds] exI [of _ n]) simp_all
qed

subsection \<open>The cursor of the next page\<close>

text \<open>
  C5, as the code has it. The cursor is taken from the last match of the page,
  \<^verbatim>\<open>hist['matches'][-1]\<close>, not from the smallest id. For every non-empty page whose
  details were all fetched, the request for the next page (the last call the pass makes,
  however the request ends) carries \<^verbatim>\<open>start_at_match_id\<close> equal to the \<open>match_id\<close> of the
  last match of the page minus 1. When no match of the page has a smaller id than the last
  one, as in a page ordered newest first, that is the minimum of the page minus 1 and is
  strictly less than every \<open>match_id\<close> of the page.
\<close>

theorem next_page_cursor:
  assumes "executor self = counting exec"
    and "history_of hist = Inr page"
    and "matches page \<noteq> []"
    and "for_each_match self (matches page) matches_acc (w, log) = (Inr matches1, s1)"
    and "batch_step self account_id silently hist matches_acc (w, log) = (res, (w', log'))"
  shows "log' \<noteq> [] \<and> endpoint (last log') = GET_MATCH_HISTORY \<and>
         map_of (query (last log')) ''start_at_match_id''
           = Some (PInt (match_id (last (matches page)) - 1)) \<and>
         ((\<forall>m \<in> set (matches page). match_id (last (matches page)) \<le> match_id m) \<longrightarrow>
            match_id (last (matches page)) - 1 = Min (match_id ` set (matches page)) - 1 \<and>
            (\<forall>m \<in> set (matches page). match_id (last (matches page)) - 1 < match_id m))"
proof -
  let ?c = "match_id (last (matches page)) - 1"
  let ?u = "build_url self GET_MATCH_HISTORY
              (setdefault ''account_id'' account_id
                 [(''start_at_match_seq'', PNone), (''start_at_match_id'', PInt ?c)])"
  obtain w1 log1 where s1: "s1 = (w1, log1)" by (cases s1)
  obtain r2 w2 log2 where
    h: "get_match_history_and_retry_on_failure self PNone account_id
          [(''start_at_match_id'', PInt ?c)] (w1, log1) = (r2, (w2, log2))"
    by (metis prod.exhaust)
  from assms(2-5) s1 h have "log' = log2"
    by (cases r2; simp add: batch_step_def match_start_index_after_def)
  moreover from history_request_log [OF assms(1) h]
  obtain n where "1 \<le> n" "log2 = log1 @ replicate n ?u" by blast
  ultimately have l: "log' \<noteq> []" "last log' = ?u" by auto
  have q: "endpoint ?u = GET_MATCH_HISTORY"
      "map_of (query ?u) ''start_at_match_id'' = Some (PInt ?c)"
    by (simp_all add: build_url_def setdefault_def)
  have "Min (match_id ` set (matches page)) = match_id (last (matches page))"
    if "\<forall>m \<in> set (matches page). match_id (last (matches page)) \<le> match_id m"
    using that assms(3) by (intro Min_eqI) auto
  then show ?thesis using l q by auto
qed

theorem next_page_cursor_witness:
  "executor (client_of (counting scripted)) = counting scripted \<and>
   history_of (page_of [9, 8] 3 1) = Inr \<lparr> matches = [summary 9, summary 8], total_results = 3,
       results_remaining = 1, num_results = 2 \<rparr> \<and>
   map_of (query (last (snd (snd (batch_step (client_of (counting scripted)) (PInt 42) True
       (page_of [9, 8] 3 1) []
       ([ok (details_of 9), ok (details_of 8), ok (page_of [7] 3 0)], [])))))) ''start_at_match_id''
     = Some (PInt 7) \<and>
   (7::int) = Min (match_id ` set [summary 9, summary 8]) - 1"
proof -
  let ?page = "\<lparr> matches = [summary 9, summary 8], total_results = 3,
                  results_remaining = 1, num_results = 2 \<rparr>"
  let ?s = "([ok (details_of 9), ok (details_of 8), ok (page_of [7] 3 0)], []) ::
              response list \<times> url list"
  have h1: "executor (client_of (counting scripted)) = counting scripted"
    by (simp add: client_of_def)
  have h2: "history_of (page_of [9, 8] 3 1) = Inr ?page"
    by (simp add: history_of_def page_of_def)
  have h3: "matches ?page \<noteq> []" by simp
  have h4: "for_each_match (client_of (counting scripted)) (matches ?page) [] ?s
              = (Inr [details_of 9, details_of 8],
                 ([ok (page_of [7] 3 0)],
                  [build_url (client_of (counting scripted)) GET_MATCH_DETAILS
                     (setdefault ''match_id'' (PInt 9) []),
                   build_url (client_of (counting scripted)) GET_MATCH_DETAILS
                     (setdefault ''match_id'' (PInt 8) [])]))"
    by (simp add: eval_defs double_defs)
  have h5: "batch_step (client_of (counting scripted)) (PInt 42) True (page_of [9, 8] 3 1) [] ?s
              = (fst (batch_step (client_of (counting scripted)) (PInt 42) True
                        (page_of [9, 8] 3 1) [] ?s),
                 (fst (snd (batch_step (client_of (counting scripted)) (PInt 42) True
                        (page_of [9, 8] 3 1) [] ?s)),
                  snd (snd (batch_step (client_of (counting scripted)) (PInt 42) True
                        (page_of [9, 8] 3 1) [] ?s))))"
    by simp
  have h6: "\<forall>m \<in> set (matches ?page). match_id (last (matches ?page)) \<le> match_id m"
    by (simp add: summary_def)
  from next_page_cursor [OF h1 h2 h3 h4 h5] h6 h1 h2
  show ?thesis by (simp add: summary_def)
qed

text \<open>
  The claim as written takes the minimum of the page. On a page listed oldest first,
  with ids 3, 5, 7, the walk asks for the next page with cursor 6: that is not the minimum
  minus 1, which is 2, and it is not below the minimum.
\<close>

theorem cursor_is_not_minimum_counterexample:
  "get_all_match_history_in_batches (client_of (counting scripted)) (PInt 42) True None []
     ([ok (page_of [3, 5, 7] 3 0), ok (details_of 3), ok (details_of 5), ok (details_of 7),
       ok (page_of [] 3 0)], [])
   = Some (Inr [details_of 3, details_of 5, details_of 7],
           ([],
            [\<lparr> endpoint = GET_MATCH_HISTORY,
               query = [(''start_at_match_seq'', PNone), (''start_at_match_id'', PInt 0),
                        (''account_id'', PInt 42), (''key'', PStr ''K''),
                        (''language'', PStr ''en_us''), (''format'', PStr ''json'')] \<rparr>,
             \<lparr> endpoint = GET_MATCH_DETAILS,
               query = [(''match_id'', PInt 3), (''key'', PStr ''K''),
                        (''language'', PStr ''en_us''), (''format'', PStr ''json'')] \<rparr>,
             \<lparr> endpoint = GET_MATCH_DETAILS,
               query = [(''match_id'', PInt 5), (''key'', PStr ''K''),
                        (''language'', PStr ''en_us''), (''format'', PStr ''json'')] \<rparr>,
             \<lparr> endpoint = GET_MATCH_DETAILS,
               query = [(''match_id'', PInt 7), (''key'', PStr ''K''),
                        (''language'', PStr ''en_us''), (''format'', PStr ''json'')] \<rparr>,
             \<lparr> endpoint = GET_MATCH_HISTORY,
               query = [(''start_at_match_seq'', PNone), (''start_at_match_id'', PInt 6),
                        (''account_id'', PInt 42), (''key'', PStr ''K''),
                        (''language'', PStr ''en_us''), (''format'', PStr ''json'')] \<rparr>])) \<and>
   Min (set [3, 5, 7]) - 1 = (2::int) \<and> \<not> (6::int) < Min (set [3, 5, 7])"
  by (simp add: eval_defs double_defs batch_loop.simps)

subsection \<open>A page without matches\<close>

text \<open>
  C6, evaluated. The first page holds 2 of 3 results and reports 1 remaining; the second
  page reports 0 remaining and holds no match. The walk fetches the details of the first
  page, asks for the second page, and on it raises \<^verbatim>\<open>IndexError\<close> at
  \<^verbatim>\<open>hist['matches'][-1]\<close> instead of leaving the loop with the 2 details collected.
\<close>

theorem empty_page_raises_index_error:
  "get_all_match_history_in_batches (client_of scripted) (PInt 42) True None []
     [ok (page_of [9, 8] 3 1), ok (details_of 9), ok (details_of 8), ok (page_of [] 3 0)]
   = Some (Inl IndexError, [])"
  by (simp add: eval_defs double_defs batch_loop.simps)

subsection \<open>The request after the last page\<close>








subsection \<open>The over-cap branch\<close>

lemma next_page_request_has_no_hero_filter:
  assumes "executor self = counting exec"
    and "history_of hist = Inr page"
    and "batch_step self account_id silently hist matches_acc (w, log)
           = (Inr (remaining', hist', matches'), (w', log'))"
  shows "log' \<noteq> [] \<and> endpoint (last log') = GET_MATCH_HISTORY \<and>
         map_of (query (last log')) ''hero_id'' = None"
proof -
  from batch_step_log [OF assms]
  obtain xs n where "1 \<le> n"
    "log' = log @ xs @ replicate n (build_url self GET_MATCH_HISTORY
              (setdefault ''account_id'' account_id
                 [(''start_at_match_seq'', PNone),
                  (''start_at_match_id'', PInt (match_id (last (matches page)) - 1))]))"
    by blast
  then show ?thesis by (auto simp: build_url_def setdefault_def)
qed

text \<open>Lists of consecutive ids, for the table of 600 matches.\<close>

lemma filter_le_upto: "filter (\<lambda>i. i \<le> c) [lo..hi] = [lo..min c hi]"
proof -
  consider "c < lo" | "hi \<le> c" | "lo \<le> c" "c < hi" by linarith
  then show ?thesis
  proof cases
    case 1
    then have "filter (\<lambda>i. i \<le> c) [lo..hi] = []" by (auto simp: filter_empty_conv)
    with 1 show ?thesis by simp
  next
    case 2
    then have "filter (\<lambda>i. i \<le> c) [lo..hi] = [lo..hi]" by (auto intro: filter_True)
    with 2 show ?thesis by simp
  next
    case 3
    then have "[lo..hi] = [lo..c] @ [c + 1..hi]" by (intro upto_split2) simp_all
    moreover have "filter (\<lambda>i. i \<le> c) [lo..c] = [lo..c]" by (auto intro: filter_True)
    moreover have "filter (\<lambda>i. i \<le> c) [c + 1..hi] = []" by (auto simp: filter_empty_conv)
    ultimately show ?thesis using 3 by simp
  qed
qed

lemma drop_upto: "drop k [lo..hi] = [lo + int k..hi]"
proof (induction k arbitrary: lo)
  case 0
  then show ?case by simp
next
  case (Suc k)
  show ?case
  proof (cases "lo \<le> hi")
    case True
    then have "[lo..hi] = lo # [lo + 1..hi]" by (rule upto_rec1)
    then show ?thesis using Suc [of "lo + 1"] by (simp add: algebra_simps)
  next
    case False
    then show ?thesis by simp
  qed
qed

lemma take_rev_upto: "take n (rev [lo..hi]) = rev [max lo (hi + 1 - int n)..hi]"
proof -
  have "lo + int (nat (hi - lo + 1) - n) = max lo (hi + 1 - int n)" if "lo \<le> hi"
    using that by (simp add: max_def)
  then show ?thesis
    by (cases "lo \<le> hi") (simp_all add: take_rev drop_upto)
qed

lemma last_rev_upto: "lo \<le> hi \<Longrightarrow> last (rev [lo..hi]) = lo"
  by (simp add: last_rev upto_rec1)

lemma split600: "[1001..1600] = [1001..1200] @ [1201..1400] @ [1401..1600]"
proof -
  have "[1001..1600] = [1001..1200] @ [1200 + 1..1600]" by (rule upto_split2) simp_all
  moreover have "[1201..1600] = [1201..1400] @ [1400 + 1..1600]" by (rule upto_split2) simp_all
  ultimately show ?thesis by simp
qed

lemma table600_by_hero:
  "filter (played_by (Some (PInt 1))) table600 = map played (rev [1401..1600])"
  "filter (played_by (Some (PInt 2))) table600 = map played (rev [1201..1400])"
  "filter (played_by (Some (PInt 3))) table600 = map played (rev [1001..1200])"
  "filter (played_by None) table600 = map played (rev [1001..1600])"
proof -
  have a: "\<And>h. filter (played_by (Some (PInt h))) table600
             = map played (rev (filter (\<lambda>i. hero_of_match i = h) [1001..1600]))"
    by (simp add: table600_def filter_map rev_filter comp_def played_by_def played_def
          del: upto_rec_numeral)
  have f: "\<And>lo hi h. (\<forall>i \<in> {lo..hi}. hero_of_match i = h) \<Longrightarrow>
             filter (\<lambda>i. hero_of_match i = h) [lo..hi] = [lo..hi]"
    by (simp del: upto_rec_numeral)
  have g: "\<And>lo hi h. (\<forall>i \<in> {lo..hi}. hero_of_match i \<noteq> h) \<Longrightarrow>
             filter (\<lambda>i. hero_of_match i = h) [lo..hi] = []"
    by (simp add: filter_empty_conv del: upto_rec_numeral)
  show "filter (played_by (Some (PInt 1))) table600 = map played (rev [1401..1600])"
    unfolding a split600 filter_append
    by (subst g, simp add: hero_of_match_def, subst g, simp add: hero_of_match_def,
        subst f, simp add: hero_of_match_def, simp del: upto_rec_numeral)
  show "filter (played_by (Some (PInt 2))) table600 = map played (rev [1201..1400])"
    unfolding a split600 filter_append
    by (subst g, simp add: hero_of_match_def, subst f, simp add: hero_of_match_def,
        subst g, simp add: hero_of_match_def, simp del: upto_rec_numeral)
  show "filter (played_by (Some (PInt 3))) table600 = map played (rev [1001..1200])"
    unfolding a split600 filter_append
    by (subst f, simp add: hero_of_match_def, subst g, simp add: hero_of_match_def,
        subst g, simp add: hero_of_match_def, simp del: upto_rec_numeral)
  show "filter (played_by None) table600 = map played (rev [1001..1600])"
    by (simp add: table600_def played_by_def del: upto_rec_numeral)
qed

lemma not_newer_cut:
  "filter (not_newer (Some (PInt c))) (map played (rev [lo..hi]))
     = map played (rev [lo..(if c \<le> 0 then hi else min c hi)])"
  "filter (not_newer None) (map played (rev [lo..hi])) = map played (rev [lo..hi])"
proof -
  have "filter (not_newer (Some (PInt c))) (map played (rev [lo..hi]))
          = map played (rev (filter (\<lambda>i. c \<le> 0 \<or> i \<le> c) [lo..hi]))"
    by (simp add: filter_map rev_filter comp_def not_newer_def played_def)
  then show "filter (not_newer (Some (PInt c))) (map played (rev [lo..hi]))
     = map played (rev [lo..(if c \<le> 0 then hi else min c hi)])"
    by (cases "c \<le> 0") (simp_all add: filter_le_upto)
  show "filter (not_newer None) (map played (rev [lo..hi])) = map played (rev [lo..hi])"
    by (simp add: not_newer_def)
qed

lemma page_of_played:
  "take 100 (map played (rev [lo..hi])) = map played (rev [max lo (hi - 99)..hi])"
  "map fst (map played ids) = ids"
  using take_rev_upto [of 100 lo hi] by (simp_all add: take_map comp_def played_def)

lemma for_each_match_upstream:
  "for_each_match (client_of (upstream page_size table heroes)) ms matches_acc ()
     = (Inr (matches_acc @ map (\<lambda>m. details_of (match_id m)) ms), ())"
  by (induction ms arbitrary: matches_acc) (simp_all add: eval_defs double_defs)

lemma client_of_fields:
  "api_key (client_of ex) = ''K''" "language (client_of ex) = ''en_us''"
  "executor (client_of ex) = ex" "format (client_of ex) = ''json''"
  by (simp_all add: client_of_def)

lemma fst_played: "fst (played i) = i"
  by (simp add: played_def)

lemmas walk600 =
  eval_defs ok_def upstream_def client_of_fields page_of_def summary_def heroes3_def
  table600_by_hero not_newer_cut page_of_played(1) fst_played for_each_match_upstream
  last_map last_rev_upto comp_def batch_loop.simps

lemma walk600_result:
  "get_all_matches_for_user (client_of (upstream 100 table600 heroes3)) (PInt 42) True ()
   = Some (Inr (map details_of
       ((rev [1501..1600] @ rev [1401..1500] @ rev [1301..1400] @ rev [1201..1300] @
         rev [1101..1200] @ rev [1001..1100]) @
        (rev [1301..1400] @ rev [1201..1300] @ rev [1101..1200] @ rev [1001..1100]) @
        (rev [1101..1200] @ rev [1001..1100]))), ())"
  by (simp add: walk600 del: upto_rec_numeral)

text \<open>
  C2, evaluated. The upstream holds 600 matches of the account, 200 for each of 3 heroes,
  and serves pages of 100: the unfiltered first page reports 600 results, the first page
  of each hero reports 200. In the walk for a hero only the first request carries
  \<^verbatim>\<open>hero_id\<close>; the request for every later page (line 88) passes \<^verbatim>\<open>start_at_match_id\<close>
  and \<^verbatim>\<open>account_id\<close> only, so the upstream answers with the unfiltered history below the
  cursor. The walk for hero 1 returns all 600 matches, the walk for hero 2 returns 400,
  the walk for hero 3 returns 200: the aggregator returns 1200 details records, with
  duplicates, where the claim says 600 without.
\<close>

theorem over_cap_later_pages_lose_hero_filter:
  "fst (get_match_history_and_retry_on_failure (client_of (upstream 100 table600 heroes3))
          PNone (PInt 42) [] ()) = Inr (page_of (rev [1501..1600]) 600 500) \<and>
   fst (get_match_history_and_retry_on_failure (client_of (upstream 100 table600 heroes3))
          PNone (PInt 42) [(''start_at_match_id'', PInt 0), (''hero_id'', PInt 1)] ())
     = Inr (page_of (rev [1501..1600]) 200 100) \<and>
   fst (get_match_history_and_retry_on_failure (client_of (upstream 100 table600 heroes3))
          PNone (PInt 42) [(''start_at_match_id'', PInt 0), (''hero_id'', PInt 2)] ())
     = Inr (page_of (rev [1301..1400]) 200 100) \<and>
   fst (get_match_history_and_retry_on_failure (client_of (upstream 100 table600 heroes3))
          PNone (PInt 42) [(''start_at_match_id'', PInt 0), (''hero_id'', PInt 3)] ())
     = Inr (page_of (rev [1101..1200]) 200 100) \<and>
   fst (get_match_history_and_retry_on_failure (client_of (upstream 100 table600 heroes3))
          PNone (PInt 42) [(''start_at_match_id'', PInt 1500)] ())
     = Inr (page_of (rev [1401..1500]) 600 400) \<and>
   get_all_matches_for_user (client_of (upstream 100 table600 heroes3)) (PInt 42) True ()
     = Some (Inr (map details_of
         ((rev [1501..1600] @ rev [1401..1500] @ rev [1301..1400] @ rev [1201..1300] @
           rev [1101..1200] @ rev [1001..1100]) @
          (rev [1301..1400] @ rev [1201..1300] @ rev [1101..1200] @ rev [1001..1100]) @
          (rev [1101..1200] @ rev [1001..1100]))), ()) \<and>
   length (projr (fst (the (get_all_matches_for_user
          (client_of (upstream 100 table600 heroes3)) (PInt 42) True ())))) = 1200 \<and>
   \<not> distinct (projr (fst (the (get_all_matches_for_user
          (client_of (upstream 100 table600 heroes3)) (PInt 42) True ()))))"
proof -
  have pages:
    "fst (get_match_history_and_retry_on_failure (client_of (upstream 100 table600 heroes3))
          PNone (PInt 42) [] ()) = Inr (page_of (rev [1501..1600]) 600 500)"
    "fst (get_match_history_and_retry_on_failure (client_of (upstream 100 table600 heroes3))
          PNone (PInt 42) [(''start_at_match_id'', PInt 0), (''hero_id'', PInt 1)] ())
     = Inr (page_of (rev [1501..1600]) 200 100)"
    "fst (get_match_history_and_retry_on_failure (client_of (upstream 100 table600 heroes3))
          PNone (PInt 42) [(''start_at_match_id'', PInt 0), (''hero_id'', PInt 2)] ())
     = Inr (page_of (rev [1301..1400]) 200 100)"
    "fst (get_match_history_and_retry_on_failure (client_of (upstream 100 table600 heroes3))
          PNone (PInt 42) [(''start_at_match_id'', PInt 0), (''hero_id'', PInt 3)] ())
     = Inr (page_of (rev [1101..1200]) 200 100)"
    "fst (get_match_history_and_retry_on_failure (client_of (upstream 100 table600 heroes3))
          PNone (PInt 42) [(''start_at_match_id'', PInt 1500)] ())
     = Inr (page_of (rev [1401..1500]) 600 400)"
    by (simp_all add: walk600 del: upto_rec_numeral)
  have len: "length (projr (fst (the (get_all_matches_for_user
          (client_of (upstream 100 table600 heroes3)) (PInt 42) True ())))) = 1200"
    by (simp add: walk600_result del: upto_rec_numeral)
  have dup: "\<not> distinct (projr (fst (the (get_all_matches_for_user
          (client_of (upstream 100 table600 heroes3)) (PInt 42) True ()))))"
    by (simp add: walk600_result del: upto_rec_numeral)
  from pages walk600_result len dup show ?thesis by blast
qed

end
